theory Spec2Isabelle
  imports Main
begin

section \<open>Python strings\<close>

text \<open>
  The two scripts only process text. A Python \<open>str\<close> is modelled as a \<open>string\<close>
  (a list of characters); the model covers ASCII text: the characters that
  \<open>str.lower\<close>, \<open>str.isspace\<close> and \<open>int\<close> treat specially are the ASCII ones, and
  every other character is an ordinary one. A text file is the list of the lines
  that iterating over the open file yields, each with its line terminator.
\<close>

type_synonym text_file = "string list"

definition is_upper :: "char \<Rightarrow> bool" where
  "is_upper c = (65 \<le> (of_char c :: nat) \<and> (of_char c :: nat) \<le> 90)"

definition lower_char :: "char \<Rightarrow> char" where
  "lower_char c = (if is_upper c then char_of ((of_char c :: nat) + 32) else c)"

text \<open>\<open>s.lower()\<close>\<close>

definition lower :: "string \<Rightarrow> string" where
  "lower s = map lower_char s"

text \<open>\<open>c.isspace()\<close>: tab, line feed, vertical tab, form feed, carriage return,
  the four separators 0x1C to 0x1F, and the space.\<close>

definition is_space :: "char \<Rightarrow> bool" where
  "is_space c = (let n = (of_char c :: nat) in (9 \<le> n \<and> n \<le> 13) \<or> (28 \<le> n \<and> n \<le> 32))"

text \<open>\<open>s.startswith(p)\<close>\<close>

fun startswith :: "string \<Rightarrow> string \<Rightarrow> bool" where
  "startswith s [] = True"
| "startswith [] (p # ps) = False"
| "startswith (c # cs) (p # ps) = (c = p \<and> startswith cs ps)"

text \<open>\<open>s.endswith(p)\<close>\<close>

definition endswith :: "string \<Rightarrow> string \<Rightarrow> bool" where
  "endswith s p = startswith (rev s) (rev p)"

text \<open>\<open>k in s\<close> for two strings: \<open>k\<close> occurs in \<open>s\<close> at some position.\<close>

fun contains :: "string \<Rightarrow> string \<Rightarrow> bool" where
  "contains [] k = (k = [])"
| "contains (c # cs) k = (startswith (c # cs) k \<or> contains cs k)"

text \<open>\<open>s.replace(old, new)\<close>: the occurrences of \<open>old\<close> are replaced from left to
  right without overlap; an empty \<open>old\<close> matches before every character and at the
  end. The first argument bounds the number of steps; the length of the string is
  enough, since every step with a non-empty \<open>old\<close> consumes a character.\<close>

fun replace_from :: "nat \<Rightarrow> string \<Rightarrow> string \<Rightarrow> string \<Rightarrow> string" where
  "replace_from 0 s old new = s"
| "replace_from (Suc n) [] old new = []"
| "replace_from (Suc n) (c # cs) old new =
     (if startswith (c # cs) old
      then new @ replace_from n (drop (length old) (c # cs)) old new
      else c # replace_from n cs old new)"

definition replace :: "string \<Rightarrow> string \<Rightarrow> string \<Rightarrow> string" where
  "replace s old new =
     (if old = [] then new @ concat (map (\<lambda>c. c # new) s)
      else replace_from (length s) s old new)"

text \<open>\<open>s.strip()\<close> and \<open>s.strip(chars)\<close>\<close>

definition strip_chars :: "(char \<Rightarrow> bool) \<Rightarrow> string \<Rightarrow> string" where
  "strip_chars p s = rev (dropWhile p (rev (dropWhile p s)))"

definition strip :: "string \<Rightarrow> string" where
  "strip s = strip_chars is_space s"

text \<open>\<open>s.split()\<close>: the maximal runs of non-whitespace characters, in order. The
  second argument is the token being read.\<close>

fun split_from :: "string \<Rightarrow> string \<Rightarrow> string list" where
  "split_from [] cur = (if cur = [] then [] else [cur])"
| "split_from (c # cs) cur =
     (if is_space c then (if cur = [] then split_from cs [] else cur # split_from cs [])
      else split_from cs (cur @ [c]))"

definition split :: "string \<Rightarrow> string list" where
  "split s = split_from s []"

text \<open>\<open>sep.join(xs)\<close>\<close>

fun join :: "string \<Rightarrow> string list \<Rightarrow> string" where
  "join sep [] = []"
| "join sep [x] = x"
| "join sep (x # y # ys) = x @ sep @ join sep (y # ys)"

text \<open>\<open>xs[i:j]\<close> for \<open>0 \<le> i \<le> j\<close>: a slice never fails, it is cut at the end of the list.\<close>

definition slice :: "'a list \<Rightarrow> nat \<Rightarrow> nat \<Rightarrow> 'a list" where
  "slice xs i j = take (j - i) (drop i xs)"

subsection \<open>Integers as text\<close>

definition is_digit :: "char \<Rightarrow> bool" where
  "is_digit c = (48 \<le> (of_char c :: nat) \<and> (of_char c :: nat) \<le> 57)"

definition digit_val :: "char \<Rightarrow> nat" where
  "digit_val c = of_char c - 48"

text \<open>The digits of a decimal literal, with single underscores allowed between two
  digits. The flag says that the previous character was a digit.\<close>

fun parse_digits :: "nat \<Rightarrow> bool \<Rightarrow> string \<Rightarrow> nat option" where
  "parse_digits acc prev_digit [] = (if prev_digit then Some acc else None)"
| "parse_digits acc prev_digit (c # cs) =
     (if is_digit c then parse_digits (10 * acc + digit_val c) True cs
      else if c = CHR ''_'' \<and> prev_digit then parse_digits acc False cs
      else None)"

text \<open>\<open>int(s)\<close>: surrounding whitespace, an optional sign, a decimal literal.
  \<open>None\<close> is the \<open>ValueError\<close>.\<close>

definition int_of_str :: "string \<Rightarrow> int option" where
  "int_of_str s =
     (case strip s of
        [] \<Rightarrow> None
      | c # cs \<Rightarrow>
          if c = CHR ''-'' then map_option (\<lambda>n. - int n) (parse_digits 0 False cs)
          else if c = CHR ''+'' then map_option int (parse_digits 0 False cs)
          else map_option int (parse_digits 0 False (c # cs)))"

text \<open>\<open>str(n)\<close>, as the f-string formats an integer.\<close>

fun str_nat :: "nat \<Rightarrow> string" where
  "str_nat n =
     (if n < 10 then [char_of (48 + n)] else str_nat (n div 10) @ [char_of (48 + n mod 10)])"

declare str_nat.simps [simp del]

definition str_int :: "int \<Rightarrow> string" where
  "str_int i = (if i < 0 then CHR ''-'' # str_nat (nat (- i)) else str_nat (nat i))"

subsection \<open>Dictionaries\<close>

text \<open>A \<open>dict\<close> keeps its keys in insertion order, and the order matters below (the
  sort of the keys is stable), so it is an association list. Assigning to a key
  that is present keeps its position.\<close>

fun dict_set :: "('k \<times> 'v) list \<Rightarrow> 'k \<Rightarrow> 'v \<Rightarrow> ('k \<times> 'v) list" where
  "dict_set [] k v = [(k, v)]"
| "dict_set ((k', v') # kvs) k v =
     (if k' = k then (k, v) # kvs else (k', v') # dict_set kvs k v)"

definition dict_keys :: "('k \<times> 'v) list \<Rightarrow> 'k list" where
  "dict_keys d = map fst d"

subsection \<open>Paths\<close>

text \<open>\<open>s.rfind(c)\<close>: the last index of the character, or \<open>-1\<close>.\<close>

fun rfind_from :: "char \<Rightarrow> string \<Rightarrow> int \<Rightarrow> int \<Rightarrow> int" where
  "rfind_from c [] i found = found"
| "rfind_from c (x # xs) i found = rfind_from c xs (i + 1) (if x = c then i else found)"

definition rfind :: "string \<Rightarrow> char \<Rightarrow> int" where
  "rfind s c = rfind_from c s 0 (- 1)"

text \<open>\<open>Path.suffix\<close> and \<open>Path.stem\<close> of the final path component, as \<open>pathlib\<close>
  computes them from the last dot of the name.\<close>

definition path_suffix :: "string \<Rightarrow> string" where
  "path_suffix name =
     (let i = rfind name CHR ''.'' in
      if 0 < i \<and> i < int (length name) - 1 then drop (nat i) name else [])"

definition path_stem :: "string \<Rightarrow> string" where
  "path_stem name =
     (let i = rfind name CHR ''.'' in
      if 0 < i \<and> i < int (length name) - 1 then take (nat i) name else name)"

section \<open>The mapping builder: \<open>make_gesture.py\<close>\<close>

text \<open>\<open>normalize_name\<close>\<close>

definition normalize_name :: "string \<Rightarrow> string" where
  "normalize_name name = replace (replace (replace (lower name) ''-'' '''') ''_'' '''') '' '' ''''"

section \<open>The converter: \<open>convert_dataset_gesture.py\<close>\<close>

subsection \<open>\<open>load_gesture_map\<close>\<close>

type_synonym gesture_map = "(string \<times> int) list"

text \<open>The exceptions that leave the two functions. \<open>ValueError\<close> is the one that the
  loader raises itself for an empty map; \<open>UnicodeDecodeError\<close>, which Python derives
  from it, is kept apart. The others are raised by opening, reading, writing and
  copying files.\<close>

datatype error =
  FileNotFoundError | ValueError | IsADirectoryError | PermissionError | UnicodeDecodeError

text \<open>What the loader prints: the two warnings, each with the offending line, and
  the closing report with the number of entries.\<close>

datatype message = CannotParseLine string | NoNumericId string | Loaded nat

text \<open>The search key of a path key: the slashes and backslashes at both ends are
  stripped, the others become underscores.\<close>

definition process_key :: "string \<Rightarrow> string" where
  "process_key path_key =
     replace (replace (strip_chars (\<lambda>c. c = CHR ''/'' \<or> c = CHR 0x5C) path_key) ''/'' ''_'')
       [CHR 0x5C] ''_''"

text \<open>The body of the loop over the lines of the mapping file. The state is the
  dictionary built so far and what has been printed.\<close>

definition load_line :: "string \<Rightarrow> gesture_map \<times> message list \<Rightarrow> gesture_map \<times> message list" where
  "load_line line st =
     (case st of (gesture_map, out) \<Rightarrow>
        if startswith line ''#'' \<or> strip line = [] then (gesture_map, out)
        else
          let parts = split (strip line) in
          if length parts < 2 then (gesture_map, out @ [CannotParseLine line])
          else
            let path_key = hd parts in
            (case int_of_str (last parts) of
               None \<Rightarrow> (gesture_map, out @ [NoNumericId line])
             | Some class_id \<Rightarrow>
                 let processed_key = process_key path_key
                 in if processed_key \<noteq> [] then (dict_set gesture_map processed_key class_id, out)
                    else (gesture_map, out)))"

fun load_lines :: "text_file \<Rightarrow> gesture_map \<times> message list \<Rightarrow> gesture_map \<times> message list" where
  "load_lines [] st = st"
| "load_lines (line # f) st = load_lines f (load_line line st)"

text \<open>What is found at the path of the mapping file: nothing, a directory, a file
  that may not be read, a file whose bytes stop being UTF-8 (with the lines that the
  iteration yields before the decoding of a later piece of the file fails, none
  when the file is read in one piece), or a text file with its lines.\<close>

datatype map_file =
  Missing | Directory | Unreadable | Undecodable text_file | Readable text_file

text \<open>The result is the exception raised or the dictionary returned, with what was
  printed. Nothing in the loader catches what \<open>open\<close> and the iteration raise.\<close>

definition load_gesture_map :: "map_file \<Rightarrow> (error + gesture_map) \<times> message list" where
  "load_gesture_map map_file =
     (case map_file of
        Missing \<Rightarrow> (Inl FileNotFoundError, [])
      | Directory \<Rightarrow> (Inl IsADirectoryError, [])
      | Unreadable \<Rightarrow> (Inl PermissionError, [])
      | Undecodable f \<Rightarrow>
          (case load_lines f ([], []) of (gesture_map, out) \<Rightarrow> (Inl UnicodeDecodeError, out))
      | Readable f \<Rightarrow>
          (case load_lines f ([], []) of (gesture_map, out) \<Rightarrow>
             if gesture_map = [] then (Inl ValueError, out)
             else (Inr gesture_map, out @ [Loaded (length gesture_map)])))"

subsection \<open>\<open>process_dataset\<close>\<close>

datatype dataset_split = Train | Val

text \<open>A label file of the pose dataset: absent, failing when opened or read, or
  its lines.\<close>

datatype label_file = NoFile | ReadError | Lines text_file

text \<open>An entry of an image directory: a subdirectory, or a file with its content,
  whether the process may read it, and the user write bit of its mode.\<close>

datatype dir_entry = Subdir | File string bool bool

text \<open>The pose dataset: per split, the entries of the image directory in the
  order in which the directory is listed (name and entry), and the label
  directory, by file name.\<close>

record pose_dataset =
  src_images :: "dataset_split \<Rightarrow> (string \<times> dir_entry) list"
  src_labels :: "dataset_split \<Rightarrow> string \<Rightarrow> label_file"

text \<open>A file of the gesture dataset: its content, and whether it may be written.
  The destination tree belongs to the process, which is not privileged: a file may
  be written exactly when the user write bit of its mode is set, a file that is
  created may be written, and the directories can be made.\<close>

record dest_file =
  data :: string
  writable :: bool

type_synonym directory = "dataset_split \<times> string \<rightharpoonup> dest_file"

text \<open>The gesture dataset being written: the splits whose two directories exist,
  and the image and label files, by split and file name.\<close>

record gesture_dataset =
  dest_dirs :: "dataset_split set"
  dest_images :: directory
  dest_labels :: directory

record stats =
  train :: nat
  val :: nat
  skipped :: nat

text \<open>\<open>open(path, 'w')\<close> and \<open>f.write(s)\<close>: a file that is there keeps its mode and
  is truncated, if it may be written.\<close>

definition write_text :: "directory \<Rightarrow> dataset_split \<times> string \<Rightarrow> string \<Rightarrow> error + directory" where
  "write_text dir path s =
     (case dir path of
        None \<Rightarrow> Inr (dir(path \<mapsto> \<lparr>data = s, writable = True\<rparr>))
      | Some f \<Rightarrow> if writable f then Inr (dir(path \<mapsto> f\<lparr>data := s\<rparr>)) else Inl PermissionError)"

text \<open>\<open>shutil.copy2(src, dst)\<close>: the source is opened for reading, then the
  destination for writing; the content is copied, then the mode.\<close>

definition copy2 :: "dir_entry \<Rightarrow> directory \<Rightarrow> dataset_split \<times> string \<Rightarrow> error + directory" where
  "copy2 src dir path =
     (case src of
        Subdir \<Rightarrow> Inl IsADirectoryError
      | File content readable user_write \<Rightarrow>
          if readable then
            (case dir path of
               None \<Rightarrow> Inr (dir(path \<mapsto> \<lparr>data = content, writable = user_write\<rparr>))
             | Some f \<Rightarrow>
                 if writable f then Inr (dir(path \<mapsto> \<lparr>data = content, writable = user_write\<rparr>))
                 else Inl PermissionError)
          else Inl PermissionError)"

text \<open>Where the walk is: it goes on with its statistics and the destination, or an
  exception has left it, with the destination as it was then.\<close>

type_synonym walk = "(error \<times> gesture_dataset) + (stats \<times> gesture_dataset)"

text \<open>\<open>sorted(folder_map.keys(), key=len, reverse=True)\<close>: a stable sort, longest
  keys first.\<close>

definition sorted_folder_keys :: "gesture_map \<Rightarrow> string list" where
  "sorted_folder_keys folder_map = sort_key (\<lambda>k. - int (length k)) (dict_keys folder_map)"

text \<open>The loop over the sorted keys, with its two nested tests and the
  \<open>break\<close>. The keys are keys of \<open>folder_map\<close>, so \<open>folder_map[folder_key]\<close> is
  defined; \<open>None\<close> is the value \<open>new_class_id\<close> keeps when no key is found.\<close>

primrec find_key :: "gesture_map \<Rightarrow> string list \<Rightarrow> string \<Rightarrow> int option" where
  "find_key folder_map [] filename_stem = None"
| "find_key folder_map (folder_key # keys) filename_stem =
     (if contains filename_stem folder_key then
        (if contains filename_stem folder_key then map_of folder_map folder_key
         else find_key folder_map keys filename_stem)
      else find_key folder_map keys filename_stem)"

text \<open>The text appended to \<open>new_label_content\<close> for one line of the pose label.\<close>

definition transcode_line :: "int \<Rightarrow> string \<Rightarrow> string" where
  "transcode_line new_class_id line =
     (let parts = split (strip line) in
      if parts = [] then []
      else let bbox = slice parts 1 5 in
           str_int new_class_id @ '' '' @ join '' '' bbox @ [CHR 0x0A])"

fun transcode :: "int \<Rightarrow> text_file \<Rightarrow> string \<Rightarrow> string" where
  "transcode new_class_id [] new_label_content = new_label_content"
| "transcode new_class_id (line # f) new_label_content =
     transcode new_class_id f (new_label_content @ transcode_line new_class_id line)"

definition count :: "dataset_split \<Rightarrow> stats \<Rightarrow> stats" where
  "count sp st = (case sp of Train \<Rightarrow> st\<lparr>train := train st + 1\<rparr> | Val \<Rightarrow> st\<lparr>val := val st + 1\<rparr>)"

definition skip :: "stats \<Rightarrow> stats" where
  "skip st = st\<lparr>skipped := skipped st + 1\<rparr>"

text \<open>The body of the loop over the images of a split. Only the reading of the
  pose label is guarded: what the writing of the label or the copy of the image
  raises leaves the walk.\<close>

definition process_image ::
  "gesture_map \<Rightarrow> string list \<Rightarrow> pose_dataset \<Rightarrow> dataset_split \<Rightarrow> string \<times> dir_entry \<Rightarrow>
   stats \<times> gesture_dataset \<Rightarrow> walk" where
  "process_image folder_map sorted_keys src sp img s =
     (case s of (st, dest) \<Rightarrow>
      case img of (name, src_img) \<Rightarrow>
        let filename_stem = path_stem name; filename_suffix = path_suffix name in
        (case find_key folder_map sorted_keys filename_stem of
           None \<Rightarrow> Inr (skip st, dest)
         | Some new_class_id \<Rightarrow>
            (case src_labels src sp (filename_stem @ ''.txt'') of
               NoFile \<Rightarrow> Inr (skip st, dest)
             | ReadError \<Rightarrow> Inr (skip st, dest)
             | Lines f \<Rightarrow>
                 let new_label_content = transcode new_class_id f [] in
                 if new_label_content \<noteq> [] then
                   (case write_text (dest_labels dest) (sp, filename_stem @ ''.txt'')
                           new_label_content of
                      Inl e \<Rightarrow> Inl (e, dest)
                    | Inr labels \<Rightarrow>
                        let dest' = dest\<lparr>dest_labels := labels\<rparr> in
                        (case copy2 src_img (dest_images dest')
                                (sp, filename_stem @ filename_suffix) of
                           Inl e \<Rightarrow> Inl (e, dest')
                         | Inr images \<Rightarrow>
                             Inr (count sp st, dest'\<lparr>dest_images := images\<rparr>)))
                 else Inr (st, dest))))"

fun process_images ::
  "gesture_map \<Rightarrow> string list \<Rightarrow> pose_dataset \<Rightarrow> dataset_split \<Rightarrow>
   (string \<times> dir_entry) list \<Rightarrow> stats \<times> gesture_dataset \<Rightarrow> walk" where
  "process_images folder_map sorted_keys src sp [] s = Inr s"
| "process_images folder_map sorted_keys src sp (img # image_files) s =
     (case process_image folder_map sorted_keys src sp img s of
        Inl raised \<Rightarrow> Inl raised
      | Inr s' \<Rightarrow> process_images folder_map sorted_keys src sp image_files s')"

text \<open>\<open>glob("*.*")\<close>: the entries whose name has a dot, subdirectories too.\<close>

definition glob_dot :: "(string \<times> dir_entry) list \<Rightarrow> (string \<times> dir_entry) list" where
  "glob_dot entries = filter (\<lambda>e. contains (fst e) ''.'') entries"

text \<open>The body of the loop over the splits: both directories are made, then the
  images are walked. An empty listing only prints a warning.\<close>

definition process_split ::
  "gesture_map \<Rightarrow> string list \<Rightarrow> pose_dataset \<Rightarrow> dataset_split \<Rightarrow>
   stats \<times> gesture_dataset \<Rightarrow> walk" where
  "process_split folder_map sorted_keys src sp s =
     (case s of (st, dest) \<Rightarrow>
        let dest' = dest\<lparr>dest_dirs := insert sp (dest_dirs dest)\<rparr>;
            image_files = glob_dot (src_images src sp)
        in if image_files = [] then Inr (st, dest')
           else process_images folder_map sorted_keys src sp image_files (st, dest'))"

text \<open>The whole walk, from the destination as it is found: the final statistics
  and the destination, or the exception that ended the walk and the destination
  as it was left.\<close>

definition process_dataset :: "gesture_map \<Rightarrow> pose_dataset \<Rightarrow> gesture_dataset \<Rightarrow> walk" where
  "process_dataset folder_map src dest =
     (let sorted_keys = sorted_folder_keys folder_map;
          st = \<lparr>train = 0, val = 0, skipped = 0\<rparr>
      in case process_split folder_map sorted_keys src Train (st, dest) of
           Inl raised \<Rightarrow> Inl raised
         | Inr s \<Rightarrow> process_split folder_map sorted_keys src Val s)"

subsection \<open>Notions used to state the properties\<close>

text \<open>A match on whole segments, as the comment in the matching loop spells it out
  and the loop does not test it: the stem contains the key between two
  underscores, or starts with the key and an underscore, or ends with an
  underscore and the key, or is the key.\<close>

definition whole_segments :: "string \<Rightarrow> string \<Rightarrow> bool" where
  "whole_segments filename_stem folder_key =
     (contains filename_stem (''_'' @ folder_key @ ''_'')
      \<or> startswith filename_stem (folder_key @ ''_'')
      \<or> endswith filename_stem (''_'' @ folder_key)
      \<or> filename_stem = folder_key)"


text \<open>What one line of the mapping file contributes to the loop of the loader: the
  entry it stores, if any, and what it prints.\<close>

definition entry :: "string \<Rightarrow> (string \<times> int) option" where
  "entry line =
     (if startswith line ''#'' \<or> length (split line) < 2 then None
      else case int_of_str (last (split line)) of
             None \<Rightarrow> None
           | Some class_id \<Rightarrow>
               if process_key (hd (split line)) = [] then None
               else Some (process_key (hd (split line)), class_id))"

definition warning :: "string \<Rightarrow> message list" where
  "warning line =
     (if startswith line ''#'' \<or> split line = [] then []
      else if length (split line) < 2 then [CannotParseLine line]
      else if int_of_str (last (split line)) = None then [NoNumericId line]
      else [])"

definition add_entry :: "gesture_map \<Rightarrow> string \<times> int \<Rightarrow> gesture_map" where
  "add_entry gm e = dict_set gm (fst e) (snd e)"




section \<open>Properties of the string operations\<close>

lemma replace_from_char_empty:
  "length s \<le> n \<Longrightarrow> replace_from n s [c] [] = filter (\<lambda>x. x \<noteq> c) s"
proof (induction n s "[c]" "[] :: string" rule: replace_from.induct)
  case (1 s)
  then show ?case by simp
next
  case (2 n)
  then show ?case by simp
next
  case (3 n x xs)
  then show ?case by (cases xs) auto
qed

lemma replace_char_empty: "replace s [c] [] = filter (\<lambda>x. x \<noteq> c) s"
  by (simp add: replace_def replace_from_char_empty)

lemma split_from_spaces:
  "\<forall>c\<in>set t. is_space c \<Longrightarrow> split_from t cur = (if cur = [] then [] else [cur])"
  by (induction t arbitrary: cur) auto

lemma split_from_append_spaces:
  "\<forall>c\<in>set t. is_space c \<Longrightarrow> split_from (s @ t) cur = split_from s cur"
  by (induction s arbitrary: cur) (auto simp: split_from_spaces)

lemma split_from_dropWhile: "split_from (dropWhile is_space s) [] = split_from s []"
  by (induction s) auto

lemma rev_dropWhile_rev:
  "\<exists>t. s = rev (dropWhile p (rev s)) @ t \<and> (\<forall>c\<in>set t. p c)"
proof -
  have "rev s = takeWhile p (rev s) @ dropWhile p (rev s)" by simp
  then have "s = rev (dropWhile p (rev s)) @ rev (takeWhile p (rev s))"
    by (metis rev_append rev_rev_ident)
  moreover have "\<forall>c\<in>set (rev (takeWhile p (rev s))). p c"
    by (auto dest: set_takeWhileD)
  ultimately show ?thesis by blast
qed

lemma split_strip: "split (strip s) = split s"
proof -
  obtain t where t: "dropWhile is_space s = rev (dropWhile is_space (rev (dropWhile is_space s))) @ t"
    and sp: "\<forall>c\<in>set t. is_space c"
    using rev_dropWhile_rev [of "dropWhile is_space s" is_space] by blast
  have "split s = split_from (dropWhile is_space s) []"
    by (simp add: split_def split_from_dropWhile)
  also have "\<dots> = split_from (strip s @ t) []"
    using t by (simp add: strip_def strip_chars_def)
  also have "\<dots> = split (strip s)"
    using sp by (simp add: split_from_append_spaces split_def)
  finally show ?thesis by simp
qed

lemma split_from_Nil_iff: "split_from s cur = [] \<longleftrightarrow> cur = [] \<and> (\<forall>c\<in>set s. is_space c)"
  by (induction s arbitrary: cur) auto

lemma split_Nil_iff: "split s = [] \<longleftrightarrow> (\<forall>c\<in>set s. is_space c)"
  by (simp add: split_def split_from_Nil_iff)

lemma strip_chars_Nil_iff: "strip_chars p s = [] \<longleftrightarrow> (\<forall>c\<in>set s. p c)"
proof -
  have a: "strip_chars p s = [] \<longleftrightarrow> (\<forall>c\<in>set (dropWhile p s). p c)"
    by (simp add: strip_chars_def)
  have b: "(\<forall>c\<in>set (dropWhile p s). p c) \<longleftrightarrow> dropWhile p s = []"
  proof (cases "dropWhile p s")
    case Nil
    then show ?thesis by (auto dest: set_dropWhileD)
  next
    case (Cons x xs)
    then have "\<not> p x" using hd_dropWhile [of p s] by simp
    with Cons show ?thesis by auto
  qed
  have c: "dropWhile p s = [] \<longleftrightarrow> (\<forall>c\<in>set s. p c)"
    by simp
  from a b c show ?thesis by simp
qed

lemma strip_Nil_iff: "strip s = [] \<longleftrightarrow> split s = []"
  by (simp add: strip_def strip_chars_Nil_iff split_Nil_iff)

lemma transcode_concat: "transcode cid f acc = acc @ concat (map (transcode_line cid) f)"
  by (induction f arbitrary: acc) auto

section \<open>Properties of the matching loop\<close>

lemma startswith_iff: "startswith s p \<longleftrightarrow> (\<exists>post. s = p @ post)"
  by (induction s p rule: startswith.induct) auto

lemma contains_iff: "contains s k \<longleftrightarrow> (\<exists>pre post. s = pre @ k @ post)"
proof (induction s)
  case Nil
  then show ?case by auto
next
  case (Cons c cs)
  have "(\<exists>pre post. c # cs = pre @ k @ post) \<longleftrightarrow>
        (\<exists>post. c # cs = k @ post) \<or> (\<exists>pre post. cs = pre @ k @ post)"
  proof
    assume "\<exists>pre post. c # cs = pre @ k @ post"
    then obtain pre post where e: "c # cs = pre @ k @ post" by blast
    show "(\<exists>post. c # cs = k @ post) \<or> (\<exists>pre post. cs = pre @ k @ post)"
    proof (cases pre)
      case Nil
      with e show ?thesis by auto
    next
      case (Cons a pre')
      with e have "cs = pre' @ k @ post" by simp
      then show ?thesis by blast
    qed
  next
    assume "(\<exists>post. c # cs = k @ post) \<or> (\<exists>pre post. cs = pre @ k @ post)"
    then show "\<exists>pre post. c # cs = pre @ k @ post"
    proof
      assume "\<exists>post. c # cs = k @ post"
      then obtain post where "c # cs = [] @ k @ post" by auto
      then show ?thesis by blast
    next
      assume "\<exists>pre post. cs = pre @ k @ post"
      then obtain pre post where "c # cs = (c # pre) @ k @ post" by auto
      then show ?thesis by blast
    qed
  qed
  with Cons show ?case by (simp add: startswith_iff)
qed

lemma find_key_find:
  "find_key fm ks stem =
     (case find (\<lambda>k. contains stem k) ks of None \<Rightarrow> None | Some k \<Rightarrow> map_of fm k)"
  by (induction ks) auto

lemma sorted_folder_keys_desc:
  "sorted_wrt (\<lambda>a b. length b \<le> length a) (sorted_folder_keys fm)"
proof -
  have "sorted (map (\<lambda>k. - int (length k)) (sorted_folder_keys fm))"
    by (simp add: sorted_folder_keys_def)
  then show ?thesis by (simp add: sorted_map)
qed

lemma set_sorted_folder_keys: "set (sorted_folder_keys fm) = fst ` set fm"
  by (simp add: sorted_folder_keys_def dict_keys_def)

lemma sorted_folder_keys_stable:
  "filter (\<lambda>k. length k = n) (sorted_folder_keys fm) = filter (\<lambda>k. length k = n) (dict_keys fm)"
proof -
  have "filter (\<lambda>k. - int (length k) = - int n) (sort_key (\<lambda>k. - int (length k)) (dict_keys fm))
      = filter (\<lambda>k. - int (length k) = - int n) (dict_keys fm)"
    by (rule sort_key_stable)
  then show ?thesis by (simp add: sorted_folder_keys_def)
qed

lemma find_key_None_iff:
  assumes "set ks \<subseteq> fst ` set fm"
  shows "find_key fm ks stem = None \<longleftrightarrow> (\<forall>k\<in>set ks. \<not> contains stem k)"
  using assms
proof (induction ks)
  case Nil
  then show ?case by simp
next
  case (Cons k ks)
  then have "k \<in> fst ` set fm" by simp
  then have "map_of fm k \<noteq> None" by (simp add: map_of_eq_None_iff)
  with Cons show ?case by auto
qed

section \<open>Properties of the label rewriting\<close>

lemma transcode_line_nonblank:
  assumes "strip line \<noteq> []"
  shows "transcode_line class_id line =
         str_int class_id @ '' '' @ join '' '' (take 4 (drop 1 (split line))) @ [CHR 0x0A]"
proof -
  from assms have "split line \<noteq> []" by (simp add: strip_Nil_iff)
  then show ?thesis by (simp add: transcode_line_def split_strip slice_def Let_def)
qed

lemma take4_drop1:
  assumes "5 \<le> length ts"
  shows "take 4 (drop 1 ts) = [ts ! 1, ts ! 2, ts ! 3, ts ! 4]"
proof -
  from assms obtain a b c d e r where "ts = a # b # c # d # e # r"
    by (auto simp: numeral_eq_Suc Suc_le_length_iff)
  then show ?thesis by simp
qed

section \<open>Properties of the loader\<close>

lemma load_line_entry:
  "load_line line (gm, out) =
     ((case entry line of None \<Rightarrow> gm | Some e \<Rightarrow> add_entry gm e), out @ warning line)"
proof (cases "startswith line ''#'' \<or> split line = []")
  case True
  then show ?thesis
    by (auto simp: load_line_def entry_def warning_def strip_Nil_iff)
next
  case False
  then show ?thesis
    by (auto simp: load_line_def entry_def warning_def add_entry_def strip_Nil_iff split_strip
        Let_def split: option.splits)
qed

lemma load_lines_fold:
  "load_lines f (gm, out) =
     (foldl add_entry gm (List.map_filter entry f), out @ concat (map warning f))"
proof (induction f arbitrary: gm out)
  case Nil
  then show ?case by simp
next
  case (Cons line f)
  then show ?case
    by (cases "entry line") (simp_all add: load_line_entry)
qed

lemma dict_set_not_Nil: "dict_set d k v \<noteq> []"
  by (cases d) (auto split: if_splits)

lemma set_keys_dict_set: "fst ` set (dict_set d k v) = insert k (fst ` set d)"
  by (induction d k v rule: dict_set.induct) (simp_all add: insert_commute)

lemma keys_dict_set:
  "map fst (dict_set d k v) = (if k \<in> fst ` set d then map fst d else map fst d @ [k])"
  by (induction d k v rule: dict_set.induct) simp_all

lemma foldl_add_entry_Nil: "foldl add_entry gm es = [] \<longleftrightarrow> gm = [] \<and> es = []"
proof (induction es arbitrary: gm)
  case Nil
  then show ?case by simp
next
  case (Cons e es)
  then show ?case by (simp add: add_entry_def dict_set_not_Nil)
qed

lemma keys_foldl_add_entry:
  "set (map fst (foldl add_entry gm es)) = fst ` set gm \<union> fst ` set es"
proof (induction es arbitrary: gm)
  case Nil
  then show ?case by simp
next
  case (Cons e es)
  have "fst ` set (add_entry gm e) = insert (fst e) (fst ` set gm)"
    by (simp add: add_entry_def set_keys_dict_set)
  with Cons show ?case by auto
qed

lemma distinct_foldl_add_entry:
  "distinct (map fst gm) \<Longrightarrow> distinct (map fst (foldl add_entry gm es))"
proof (induction es arbitrary: gm)
  case Nil
  then show ?case by simp
next
  case (Cons e es)
  from Cons.prems have "distinct (map fst (add_entry gm e))"
    by (simp add: add_entry_def keys_dict_set)
  with Cons.IH show ?case by simp
qed

lemma length_foldl_add_entry: "length (foldl add_entry [] es) = card (fst ` set es)"
proof -
  have "distinct (map fst (foldl add_entry [] es))"
    by (rule distinct_foldl_add_entry) simp
  then have "length (map fst (foldl add_entry [] es)) = card (set (map fst (foldl add_entry [] es)))"
    by (simp only: distinct_card)
  then show ?thesis by (simp add: keys_foldl_add_entry del: set_map)
qed

lemma entry_Some_iff:
  "entry line \<noteq> None \<longleftrightarrow>
     \<not> startswith line ''#'' \<and> 2 \<le> length (split line)
     \<and> int_of_str (last (split line)) \<noteq> None \<and> process_key (hd (split line)) \<noteq> []"
  by (auto simp: entry_def split: option.splits)

lemma fst_entry: "entry line = Some e \<Longrightarrow> fst e = process_key (hd (split line))"
  by (auto simp: entry_def split: option.splits if_splits)

lemma load_gesture_map_fold:
  "load_gesture_map (Readable f) =
     (let gm = foldl add_entry [] (List.map_filter entry f); out = concat (map warning f)
      in if gm = [] then (Inl ValueError, out) else (Inr gm, out @ [Loaded (length gm)]))"
  by (simp add: load_gesture_map_def load_lines_fold Let_def)

lemma map_filter_Nil_iff: "List.map_filter g xs = [] \<longleftrightarrow> (\<forall>x\<in>set xs. g x = None)"
  by (induction xs) (auto simp: split: option.splits)

lemma load_result:
  "fst (load_gesture_map (Readable f)) =
     (if \<forall>line\<in>set f. entry line = None then Inl ValueError
      else Inr (foldl add_entry [] (List.map_filter entry f)))"
  by (simp add: load_gesture_map_fold Let_def foldl_add_entry_Nil map_filter_Nil_iff)

lemma load_printed:
  "set (concat (map warning f)) \<subseteq> set (snd (load_gesture_map (Readable f)))"
  by (auto simp: load_gesture_map_fold Let_def)

lemma map_filter_append:
  "List.map_filter g (xs @ ys) = List.map_filter g xs @ List.map_filter g ys"
  by (simp add: List.map_filter_def)

lemma load_skip_line:
  assumes "entry line = None"
  shows "fst (load_gesture_map (Readable (pre @ line # post))) = fst (load_gesture_map (Readable (pre @ post)))"
  using assms by (simp add: load_result map_filter_append ball_Un)

section \<open>Properties of the walk\<close>

lemma path_stem_suffix: "path_stem name @ path_suffix name = name"
  by (simp add: path_stem_def path_suffix_def Let_def)


























section \<open>Claims\<close>

text \<open>
  C8. \<open>normalize_name\<close> lower-cases its input and removes every hyphen, underscore
  and space, and nothing else: the result is the lower-cased input with exactly the
  characters \<open>-\<close>, \<open>_\<close> and space filtered out, in the same order. In particular
  \<open>Open-Pinch\<close> and \<open>open pinch\<close> both normalise to \<open>openpinch\<close>.
\<close>

theorem normalize_name_spec:
  "normalize_name name =
     filter (\<lambda>c. c \<noteq> CHR ''-'' \<and> c \<noteq> CHR ''_'' \<and> c \<noteq> CHR '' '') (map lower_char name)
   \<and> normalize_name ''Open-Pinch'' = ''openpinch''
   \<and> normalize_name ''open pinch'' = ''openpinch''"
proof -
  have gen: "\<And>s. normalize_name s =
      filter (\<lambda>c. c \<noteq> CHR ''-'' \<and> c \<noteq> CHR ''_'' \<and> c \<noteq> CHR '' '') (map lower_char s)"
    by (simp add: normalize_name_def lower_def replace_char_empty conj_commute conj_left_commute)
  have a: "normalize_name ''Open-Pinch'' = ''openpinch''"
    by code_simp
  have b: "normalize_name ''open pinch'' = ''openpinch''"
    by code_simp
  from gen a b show ?thesis by blast
qed

text \<open>
  C3. For every line of a pose label that is not blank, and every class id, the
  text appended for the line is the class id, a space, the tokens of the line at
  positions 1 to 4 as they are written, joined by single spaces, and the line
  terminator: the token at position 0 and the tokens from position 5 on are
  dropped. With five tokens or more these are exactly four fields. In particular
  the line \<open>2 0.5 0.5 0.2 0.3 0.1 0.1 0.9\<close> with class id 7 gives the label
  \<open>7 0.5 0.5 0.2 0.3\<close>.
\<close>

theorem transcode_line_bbox:
  assumes "strip line \<noteq> []"
  shows "transcode_line class_id line =
           str_int class_id @ '' '' @ join '' '' (take 4 (drop 1 (split line))) @ [CHR 0x0A]
       \<and> (5 \<le> length (split line) \<longrightarrow>
            transcode_line class_id line =
              str_int class_id @ '' '' @ split line ! 1 @ '' '' @ split line ! 2 @ '' ''
                @ split line ! 3 @ '' '' @ split line ! 4 @ [CHR 0x0A])
       \<and> transcode 7 [''2 0.5 0.5 0.2 0.3 0.1 0.1 0.9''] [] = ''7 0.5 0.5 0.2 0.3'' @ [CHR 0x0A]"
proof -
  have g: "transcode_line class_id line =
           str_int class_id @ '' '' @ join '' '' (take 4 (drop 1 (split line))) @ [CHR 0x0A]"
    using assms by (rule transcode_line_nonblank)
  have f: "5 \<le> length (split line) \<longrightarrow>
            transcode_line class_id line =
              str_int class_id @ '' '' @ split line ! 1 @ '' '' @ split line ! 2 @ '' ''
                @ split line ! 3 @ '' '' @ split line ! 4 @ [CHR 0x0A]"
  proof
    assume "5 \<le> length (split line)"
    then have "take 4 (drop 1 (split line)) =
                 [split line ! 1, split line ! 2, split line ! 3, split line ! 4]"
      by (rule take4_drop1)
    with g show "transcode_line class_id line =
              str_int class_id @ '' '' @ split line ! 1 @ '' '' @ split line ! 2 @ '' ''
                @ split line ! 3 @ '' '' @ split line ! 4 @ [CHR 0x0A]"
      by simp
  qed
  have e: "transcode 7 [''2 0.5 0.5 0.2 0.3 0.1 0.1 0.9''] [] = ''7 0.5 0.5 0.2 0.3'' @ [CHR 0x0A]"
    by code_simp
  from g f e show ?thesis by blast
qed

theorem transcode_line_bbox_witness:
  "strip ''0 0.4 0.4 0.3 0.3 0.7 0.7'' \<noteq> []
   \<and> 5 \<le> length (split ''0 0.4 0.4 0.3 0.3 0.7 0.7'')
   \<and> transcode_line 3 ''0 0.4 0.4 0.3 0.3 0.7 0.7'' = ''3 0.4 0.4 0.3 0.3'' @ [CHR 0x0A]"
proof -
  have h: "strip ''0 0.4 0.4 0.3 0.3 0.7 0.7'' \<noteq> []" by code_simp
  have l: "5 \<le> length (split ''0 0.4 0.4 0.3 0.3 0.7 0.7'')" by code_simp
  have v: "str_int 3 @ '' '' @ split ''0 0.4 0.4 0.3 0.3 0.7 0.7'' ! 1 @ '' ''
             @ split ''0 0.4 0.4 0.3 0.3 0.7 0.7'' ! 2 @ '' ''
             @ split ''0 0.4 0.4 0.3 0.3 0.7 0.7'' ! 3 @ '' ''
             @ split ''0 0.4 0.4 0.3 0.3 0.7 0.7'' ! 4 @ [CHR 0x0A]
           = ''3 0.4 0.4 0.3 0.3'' @ [CHR 0x0A]" by code_simp
  from transcode_line_bbox [OF h, of 3] l
  have "transcode_line 3 ''0 0.4 0.4 0.3 0.3 0.7 0.7'' =
          str_int 3 @ '' '' @ split ''0 0.4 0.4 0.3 0.3 0.7 0.7'' ! 1 @ '' ''
             @ split ''0 0.4 0.4 0.3 0.3 0.7 0.7'' ! 2 @ '' ''
             @ split ''0 0.4 0.4 0.3 0.3 0.7 0.7'' ! 3 @ '' ''
             @ split ''0 0.4 0.4 0.3 0.3 0.7 0.7'' ! 4 @ [CHR 0x0A]" by blast
  with v have "transcode_line 3 ''0 0.4 0.4 0.3 0.3 0.7 0.7'' = ''3 0.4 0.4 0.3 0.3'' @ [CHR 0x0A]"
    by (simp only:)
  with h l show ?thesis by blast
qed



text \<open>
  C1. For every folder map and file name stem, the keys are tried longest first
  (the sorted keys are the keys of the map, in an order of descending length), and
  the loop gives the class id of the first of them that occurs in the stem as a
  contiguous substring; it gives \<open>None\<close> exactly when no key of the map occurs in
  the stem. With the keys \<open>b_c\<close> for 10 and \<open>a_b_c\<close> for 4, the stem \<open>a_b_c_d\<close>
  gives 4.
\<close>

theorem find_key_longest_first:
  "sorted_wrt (\<lambda>a b. length b \<le> length a) (sorted_folder_keys folder_map)
   \<and> set (sorted_folder_keys folder_map) = fst ` set folder_map
   \<and> find_key folder_map (sorted_folder_keys folder_map) stem =
         (case find (\<lambda>k. \<exists>pre post. stem = pre @ k @ post) (sorted_folder_keys folder_map) of
            None \<Rightarrow> None
          | Some k \<Rightarrow> map_of folder_map k)
   \<and> (find_key folder_map (sorted_folder_keys folder_map) stem = None
        \<longleftrightarrow> (\<forall>k \<in> fst ` set folder_map. \<not> (\<exists>pre post. stem = pre @ k @ post)))
   \<and> find_key [(''b_c'', 10), (''a_b_c'', 4)] (sorted_folder_keys [(''b_c'', 10), (''a_b_c'', 4)])
         ''a_b_c_d'' = Some 4"
proof -
  have a: "sorted_wrt (\<lambda>a b. length b \<le> length a) (sorted_folder_keys folder_map)"
    by (rule sorted_folder_keys_desc)
  have b: "set (sorted_folder_keys folder_map) = fst ` set folder_map"
    by (rule set_sorted_folder_keys)
  have c: "find_key folder_map (sorted_folder_keys folder_map) stem =
         (case find (\<lambda>k. \<exists>pre post. stem = pre @ k @ post) (sorted_folder_keys folder_map) of
            None \<Rightarrow> None
          | Some k \<Rightarrow> map_of folder_map k)"
    by (simp add: find_key_find contains_iff)
  have "find_key folder_map (sorted_folder_keys folder_map) stem = None
        \<longleftrightarrow> (\<forall>k \<in> set (sorted_folder_keys folder_map). \<not> contains stem k)"
    by (rule find_key_None_iff) (simp add: b)
  then have d: "find_key folder_map (sorted_folder_keys folder_map) stem = None
        \<longleftrightarrow> (\<forall>k \<in> fst ` set folder_map. \<not> (\<exists>pre post. stem = pre @ k @ post))"
    by (simp only: b contains_iff)
  have e: "find_key [(''b_c'', 10), (''a_b_c'', 4)] (sorted_folder_keys [(''b_c'', 10), (''a_b_c'', 4)])
         ''a_b_c_d'' = Some 4"
    by code_simp
  from a b c d e show ?thesis by blast
qed

theorem find_key_longest_first_witness:
  "sorted_folder_keys [(''b_c'', 10), (''a_b_c'', 4)] = [''a_b_c'', ''b_c'']
   \<and> \<not> contains ''a_bc_d'' ''a_b_c'' \<and> \<not> contains ''a_bc_d'' ''b_c''
   \<and> find_key [(''b_c'', 10), (''a_b_c'', 4)] (sorted_folder_keys [(''b_c'', 10), (''a_b_c'', 4)])
         ''a_bc_d'' = None"
proof -
  have s: "sorted_folder_keys [(''b_c'', 10), (''a_b_c'', 4)] = [''a_b_c'', ''b_c'']"
    by code_simp
  have n1: "\<not> contains ''a_bc_d'' ''a_b_c''" by code_simp
  have n2: "\<not> contains ''a_bc_d'' ''b_c''" by code_simp
  have "\<forall>k \<in> fst ` set [(''b_c'', 10::int), (''a_b_c'', 4)].
          \<not> (\<exists>pre post. ''a_bc_d'' = pre @ k @ post)"
    using n1 n2 by (simp add: contains_iff)
  with find_key_longest_first [of "[(''b_c'', 10), (''a_b_c'', 4)]" "''a_bc_d''"]
  have "find_key [(''b_c'', 10), (''a_b_c'', 4)] (sorted_folder_keys [(''b_c'', 10), (''a_b_c'', 4)])
         ''a_bc_d'' = None" by blast
  with s n1 n2 show ?thesis by blast
qed

text \<open>
  C9. The match is not aware of segment boundaries: the map with the only key
  \<open>b_c\<close> matches the stem \<open>ab_cd\<close>, where the key occurs but not as whole
  segments between underscores.
\<close>

theorem find_key_not_on_boundaries:
  "find_key [(''b_c'', 10)] (sorted_folder_keys [(''b_c'', 10)]) ''ab_cd'' = Some 10
   \<and> contains ''ab_cd'' ''b_c''
   \<and> \<not> whole_segments ''ab_cd'' ''b_c''"
  by code_simp

text \<open>
  C5, as stated, fails. A path that exists and is a directory gives no entry, and
  the load fails with the error of \<open>open\<close>, not with the error of the empty map. A
  file whose decoding fails after two lines with entries have been read does not
  return the map that the two lines alone give: the load fails with the decoding
  error.
\<close>

theorem load_gesture_map_raises_iff_counterexample:
  "fst (load_gesture_map Directory) = Inl IsADirectoryError
   \<and> fst (load_gesture_map (Undecodable [''b/c OK 10\<newline>'', ''d/e fist 3\<newline>'']))
       = Inl UnicodeDecodeError
   \<and> fst (load_gesture_map (Readable [''b/c OK 10\<newline>'', ''d/e fist 3\<newline>'']))
       = Inr [(''b_c'', 10), (''d_e'', 3)]"
  by code_simp

text \<open>
  C5, as the loader has it. Loading fails with \<open>FileNotFoundError\<close> exactly when the
  mapping file is missing. A path that cannot be opened, or bytes that cannot be
  decoded, make it fail with the error of the operation, whatever was parsed. For
  a file that is opened and decoded to its end, it fails with \<open>ValueError\<close> exactly
  when no line gives an entry (a line that is not a comment, has at least two
  tokens, ends in a token that is an integer, and has a path key that is not empty
  once processed), and returns a dictionary, which is not empty, exactly when some
  line does. A malformed line of such a file (not a comment, not blank, with fewer
  than two tokens or with a last token that is not an integer) does not stop the
  load: the result is the one of the file without the line, and the warning for
  the line is printed.
\<close>

theorem load_gesture_map_raises_iff:
  "(fst (load_gesture_map map_file) = Inl FileNotFoundError \<longleftrightarrow> map_file = Missing)
   \<and> fst (load_gesture_map Directory) = Inl IsADirectoryError
   \<and> fst (load_gesture_map Unreadable) = Inl PermissionError
   \<and> fst (load_gesture_map (Undecodable f)) = Inl UnicodeDecodeError
   \<and> (fst (load_gesture_map (Readable f)) = Inl ValueError \<longleftrightarrow>
        \<not> (\<exists>line\<in>set f. \<not> startswith line ''#'' \<and> 2 \<le> length (split line)
              \<and> int_of_str (last (split line)) \<noteq> None \<and> process_key (hd (split line)) \<noteq> []))
   \<and> ((\<exists>gm. fst (load_gesture_map (Readable f)) = Inr gm \<and> gm \<noteq> []) \<longleftrightarrow>
        (\<exists>line\<in>set f. \<not> startswith line ''#'' \<and> 2 \<le> length (split line)
              \<and> int_of_str (last (split line)) \<noteq> None \<and> process_key (hd (split line)) \<noteq> []))
   \<and> (\<not> startswith line ''#'' \<and> strip line \<noteq> []
        \<and> (length (split line) < 2 \<or> int_of_str (last (split line)) = None) \<longrightarrow>
        fst (load_gesture_map (Readable (pre @ line # post))) = fst (load_gesture_map (Readable (pre @ post)))
        \<and> (if length (split line) < 2 then CannotParseLine line else NoNumericId line)
            \<in> set (snd (load_gesture_map (Readable (pre @ line # post)))))"
proof -
  have a: "fst (load_gesture_map map_file) = Inl FileNotFoundError \<longleftrightarrow> map_file = Missing"
  proof (cases map_file)
    case (Readable g)
    then show ?thesis by (simp add: load_result)
  qed (simp_all add: load_gesture_map_def split: prod.splits)
  have b: "fst (load_gesture_map Directory) = Inl IsADirectoryError
     \<and> fst (load_gesture_map Unreadable) = Inl PermissionError
     \<and> fst (load_gesture_map (Undecodable f)) = Inl UnicodeDecodeError"
    by (simp add: load_gesture_map_def split: prod.splits)
  have v: "(\<forall>line\<in>set f. entry line = None) \<longleftrightarrow>
        \<not> (\<exists>line\<in>set f. \<not> startswith line ''#'' \<and> 2 \<le> length (split line)
              \<and> int_of_str (last (split line)) \<noteq> None \<and> process_key (hd (split line)) \<noteq> [])"
    using entry_Some_iff by blast
  have c: "fst (load_gesture_map (Readable f)) = Inl ValueError \<longleftrightarrow>
        \<not> (\<exists>line\<in>set f. \<not> startswith line ''#'' \<and> 2 \<le> length (split line)
              \<and> int_of_str (last (split line)) \<noteq> None \<and> process_key (hd (split line)) \<noteq> [])"
    using v by (simp add: load_result)
  have "(\<exists>gm. fst (load_gesture_map (Readable f)) = Inr gm \<and> gm \<noteq> []) \<longleftrightarrow>
        \<not> (\<forall>line\<in>set f. entry line = None)"
    by (simp add: load_result foldl_add_entry_Nil map_filter_Nil_iff)
  then have d: "(\<exists>gm. fst (load_gesture_map (Readable f)) = Inr gm \<and> gm \<noteq> []) \<longleftrightarrow>
        (\<exists>line\<in>set f. \<not> startswith line ''#'' \<and> 2 \<le> length (split line)
              \<and> int_of_str (last (split line)) \<noteq> None \<and> process_key (hd (split line)) \<noteq> [])"
    using v by blast
  have e: "\<not> startswith line ''#'' \<and> strip line \<noteq> []
        \<and> (length (split line) < 2 \<or> int_of_str (last (split line)) = None) \<longrightarrow>
        fst (load_gesture_map (Readable (pre @ line # post))) = fst (load_gesture_map (Readable (pre @ post)))
        \<and> (if length (split line) < 2 then CannotParseLine line else NoNumericId line)
            \<in> set (snd (load_gesture_map (Readable (pre @ line # post))))"
  proof
    assume m: "\<not> startswith line ''#'' \<and> strip line \<noteq> []
        \<and> (length (split line) < 2 \<or> int_of_str (last (split line)) = None)"
    then have n: "entry line = None"
      by (auto simp: entry_def)
    from m have "warning line =
        [if length (split line) < 2 then CannotParseLine line else NoNumericId line]"
      by (auto simp: warning_def strip_Nil_iff)
    then have "(if length (split line) < 2 then CannotParseLine line else NoNumericId line)
        \<in> set (concat (map warning (pre @ line # post)))"
      by simp
    then have "(if length (split line) < 2 then CannotParseLine line else NoNumericId line)
        \<in> set (snd (load_gesture_map (Readable (pre @ line # post))))"
      using load_printed [of "pre @ line # post"] by blast
    with load_skip_line [OF n]
    show "fst (load_gesture_map (Readable (pre @ line # post))) = fst (load_gesture_map (Readable (pre @ post)))
        \<and> (if length (split line) < 2 then CannotParseLine line else NoNumericId line)
            \<in> set (snd (load_gesture_map (Readable (pre @ line # post))))"
      by blast
  qed
  from a b c d e show ?thesis by blast
qed

theorem load_gesture_map_raises_iff_witness:
  "\<not> startswith ''oops\<newline>'' ''#'' \<and> strip ''oops\<newline>'' \<noteq> []
   \<and> length (split ''oops\<newline>'') < 2
   \<and> fst (load_gesture_map
         (Readable ([''# map\<newline>'', ''b/c OK 10\<newline>''] @ ''oops\<newline>''
                  # [''d/e fist x\<newline>'', ''\<newline>''])))
       = fst (load_gesture_map
         (Readable ([''# map\<newline>'', ''b/c OK 10\<newline>''] @ [''d/e fist x\<newline>'', ''\<newline>''])))
   \<and> CannotParseLine ''oops\<newline>''
       \<in> set (snd (load_gesture_map
         (Readable ([''# map\<newline>'', ''b/c OK 10\<newline>''] @ ''oops\<newline>''
                  # [''d/e fist x\<newline>'', ''\<newline>'']))))
   \<and> fst (load_gesture_map
         (Readable ([''# map\<newline>'', ''b/c OK 10\<newline>''] @ [''d/e fist x\<newline>'', ''\<newline>'']))) 
       = Inr [(''b_c'', 10)]"
proof -
  have h1: "\<not> startswith ''oops\<newline>'' ''#''" by code_simp
  have h2: "strip ''oops\<newline>'' \<noteq> []" by code_simp
  have h3: "length (split ''oops\<newline>'') < 2" by code_simp
  have r: "fst (load_gesture_map
         (Readable ([''# map\<newline>'', ''b/c OK 10\<newline>''] @ [''d/e fist x\<newline>'', ''\<newline>'']))) 
       = Inr [(''b_c'', 10)]" by code_simp
  from load_gesture_map_raises_iff
         [where line = "''oops\<newline>''" and pre = "[''# map\<newline>'', ''b/c OK 10\<newline>'']"
            and post = "[''d/e fist x\<newline>'', ''\<newline>'']"] h1 h2 h3
  have "fst (load_gesture_map
         (Readable ([''# map\<newline>'', ''b/c OK 10\<newline>''] @ ''oops\<newline>''
                  # [''d/e fist x\<newline>'', ''\<newline>''])))
       = fst (load_gesture_map
         (Readable ([''# map\<newline>'', ''b/c OK 10\<newline>''] @ [''d/e fist x\<newline>'', ''\<newline>''])))
     \<and> (if length (split ''oops\<newline>'') < 2 then CannotParseLine ''oops\<newline>''
          else NoNumericId ''oops\<newline>'')
       \<in> set (snd (load_gesture_map
         (Readable ([''# map\<newline>'', ''b/c OK 10\<newline>''] @ ''oops\<newline>''
                  # [''d/e fist x\<newline>'', ''\<newline>'']))))"
    by blast
  with h3 have "fst (load_gesture_map
         (Readable ([''# map\<newline>'', ''b/c OK 10\<newline>''] @ ''oops\<newline>''
                  # [''d/e fist x\<newline>'', ''\<newline>''])))
       = fst (load_gesture_map
         (Readable ([''# map\<newline>'', ''b/c OK 10\<newline>''] @ [''d/e fist x\<newline>'', ''\<newline>''])))
     \<and> CannotParseLine ''oops\<newline>''
       \<in> set (snd (load_gesture_map
         (Readable ([''# map\<newline>'', ''b/c OK 10\<newline>''] @ ''oops\<newline>''
                  # [''d/e fist x\<newline>'', ''\<newline>'']))))"
    by (simp only: if_True)
  with h1 h2 h3 r show ?thesis by blast
qed

text \<open>
  C4, as stated, fails: two lines with at least two tokens and an integer as last
  token, whose path keys are processed to the same key, give one key.
\<close>

theorem load_gesture_map_key_count_counterexample:
  "fst (load_gesture_map (Readable [''b/c OK 10\<newline>'', ''/b/c/ fist 3\<newline>''])) = Inr [(''b_c'', 3)]
   \<and> length [(''b_c'', 3 :: int)] = 1
   \<and> length (filter (\<lambda>line. 2 \<le> length (split line) \<and> int_of_str (last (split line)) \<noteq> None)
               [''b/c OK 10\<newline>'', ''/b/c/ fist 3\<newline>'']) = 2"
  by code_simp

text \<open>
  C4, as the loader has it. The number of keys of the dictionary returned is the
  number of distinct processed keys, among the lines that are not comments, have
  at least two tokens, end in a token that is an integer, and have a processed key
  that is not empty. It is at most the number of lines with at least two tokens
  and an integer as last token.
\<close>

theorem load_gesture_map_key_count:
  assumes "fst (load_gesture_map (Readable f)) = Inr gm"
  shows "distinct (map fst gm)
       \<and> length gm =
           card {process_key (hd (split line)) | line.
                   line \<in> set f \<and> \<not> startswith line ''#'' \<and> 2 \<le> length (split line)
                   \<and> int_of_str (last (split line)) \<noteq> None
                   \<and> process_key (hd (split line)) \<noteq> []}
       \<and> length gm \<le>
           length (filter (\<lambda>line. 2 \<le> length (split line) \<and> int_of_str (last (split line)) \<noteq> None) f)"
proof -
  let ?es = "List.map_filter entry f"
  from assms have gm: "gm = foldl add_entry [] ?es"
    by (simp add: load_result split: if_splits)
  have a: "distinct (map fst gm)"
    unfolding gm by (rule distinct_foldl_add_entry) simp
  have s: "fst ` set ?es =
           {process_key (hd (split line)) | line.
                   line \<in> set f \<and> \<not> startswith line ''#'' \<and> 2 \<le> length (split line)
                   \<and> int_of_str (last (split line)) \<noteq> None
                   \<and> process_key (hd (split line)) \<noteq> []}" (is "?L = ?R")
  proof
    show "?L \<subseteq> ?R"
    proof
      fix k assume "k \<in> ?L"
      then obtain e where e: "e \<in> set ?es" and k: "k = fst e" by blast
      from e obtain line where l: "line \<in> set f" and en: "entry line = Some e"
        by (auto simp: List.map_filter_def)
      from en have "entry line \<noteq> None" by simp
      with l k fst_entry [OF en] show "k \<in> ?R"
        unfolding entry_Some_iff by blast
    qed
    show "?R \<subseteq> ?L"
    proof
      fix k assume "k \<in> ?R"
      then obtain line where l: "line \<in> set f" and k: "k = process_key (hd (split line))"
        and v: "\<not> startswith line ''#'' \<and> 2 \<le> length (split line)
                   \<and> int_of_str (last (split line)) \<noteq> None
                   \<and> process_key (hd (split line)) \<noteq> []" by blast
      from v have "entry line \<noteq> None" unfolding entry_Some_iff .
      then obtain e where en: "entry line = Some e" by blast
      with l have "e \<in> set ?es" by (force simp: List.map_filter_def)
      with fst_entry [OF en] k show "k \<in> ?L" by force
    qed
  qed
  have b: "length gm = card ?R"
    unfolding gm s [symmetric] by (rule length_foldl_add_entry)
  have "length gm \<le> length ?es"
    unfolding gm length_foldl_add_entry by (metis card_image_le card_length le_trans List.finite_set)
  also have "length ?es \<le> length (filter (\<lambda>line. entry line \<noteq> None) f)"
    by (simp add: List.map_filter_def)
  also have "\<dots> \<le> length (filter (\<lambda>line. 2 \<le> length (split line)
                \<and> int_of_str (last (split line)) \<noteq> None) f)"
  proof (induction f)
    case Nil
    then show ?case by simp
  next
    case (Cons x f)
    then show ?case using entry_Some_iff [of x] by auto
  qed
  finally have c: "length gm \<le> length (filter (\<lambda>line. 2 \<le> length (split line)
                \<and> int_of_str (last (split line)) \<noteq> None) f)" .
  from a b c show ?thesis by blast
qed

theorem load_gesture_map_key_count_witness:
  "fst (load_gesture_map (Readable [''b/c OK 10\<newline>'', ''# x 1\<newline>'', ''/ y 2\<newline>'',
                                 ''/b/c/ fist 3\<newline>'', ''a/b/c thumb up 4\<newline>'']))
     = Inr [(''b_c'', 3), (''a_b_c'', 4)]
   \<and> distinct (map fst [(''b_c'', 3 :: int), (''a_b_c'', 4)])
   \<and> length [(''b_c'', 3 :: int), (''a_b_c'', 4)] \<le>
       length (filter (\<lambda>line. 2 \<le> length (split line) \<and> int_of_str (last (split line)) \<noteq> None)
          [''b/c OK 10\<newline>'', ''# x 1\<newline>'', ''/ y 2\<newline>'',
           ''/b/c/ fist 3\<newline>'', ''a/b/c thumb up 4\<newline>''])"
proof -
  have h: "fst (load_gesture_map (Readable [''b/c OK 10\<newline>'', ''# x 1\<newline>'', ''/ y 2\<newline>'',
                                 ''/b/c/ fist 3\<newline>'', ''a/b/c thumb up 4\<newline>'']))
     = Inr [(''b_c'', 3), (''a_b_c'', 4)]" by code_simp
  from load_gesture_map_key_count [OF h] h show ?thesis by blast
qed




text \<open>
  C6 at an image directory that lists a subdirectory with a dot in its name,
  \<open>a_b_c_d.v2\<close>, whose stem matches the key \<open>b_c\<close> and has a pose label. The label
  is written, then the copy raises \<open>IsADirectoryError\<close>, which nothing catches: the
  walk, from an empty destination, ends with the label \<open>a_b_c_d.txt\<close> in the
  destination and no image. The same happens, with \<open>PermissionError\<close>, at an image
  file that the process may not read.
\<close>

theorem process_dataset_label_without_image:
  "process_dataset [(''b_c'', 10)]
     \<lparr>src_images = (\<lambda>sp. case sp of Train \<Rightarrow> [(''a_b_c_d.v2'', Subdir)] | Val \<Rightarrow> []),
      src_labels = (\<lambda>sp n. if sp = Train \<and> n = ''a_b_c_d.txt''
                          then Lines [''0 0.5 0.5 0.2 0.3 0.9 0.9\<newline>''] else NoFile)\<rparr>
     \<lparr>dest_dirs = {}, dest_images = Map.empty, dest_labels = Map.empty\<rparr>
   = Inl (IsADirectoryError,
          \<lparr>dest_dirs = {Train},
           dest_images = Map.empty,
           dest_labels = [(Train, ''a_b_c_d.txt'') \<mapsto>
                            \<lparr>data = ''10 0.5 0.5 0.2 0.3\<newline>'', writable = True\<rparr>]\<rparr>)
   \<and> process_dataset [(''b_c'', 10)]
     \<lparr>src_images = (\<lambda>sp. case sp of Train \<Rightarrow> [(''a_b_c_d.png'', File ''PNG'' False True)] | Val \<Rightarrow> []),
      src_labels = (\<lambda>sp n. if sp = Train \<and> n = ''a_b_c_d.txt''
                          then Lines [''0 0.5 0.5 0.2 0.3 0.9 0.9\<newline>''] else NoFile)\<rparr>
     \<lparr>dest_dirs = {}, dest_images = Map.empty, dest_labels = Map.empty\<rparr>
   = Inl (PermissionError,
          \<lparr>dest_dirs = {Train},
           dest_images = Map.empty,
           dest_labels = [(Train, ''a_b_c_d.txt'') \<mapsto>
                            \<lparr>data = ''10 0.5 0.5 0.2 0.3\<newline>'', writable = True\<rparr>]\<rparr>)"
proof -
  have s: "path_stem ''a_b_c_d.v2'' = ''a_b_c_d''" by code_simp
  have x: "path_suffix ''a_b_c_d.v2'' = ''.v2''" by code_simp
  have s': "path_stem ''a_b_c_d.png'' = ''a_b_c_d''" by code_simp
  have x': "path_suffix ''a_b_c_d.png'' = ''.png''" by code_simp
  have k: "find_key [(''b_c'', 10)] (sorted_folder_keys [(''b_c'', 10)]) ''a_b_c_d'' = Some 10"
    by code_simp
  have t: "transcode 10 [''0 0.5 0.5 0.2 0.3 0.9 0.9\<newline>''] [] = ''10 0.5 0.5 0.2 0.3\<newline>''"
    by code_simp
  have g: "glob_dot [(''a_b_c_d.v2'', Subdir)] = [(''a_b_c_d.v2'', Subdir)]" by code_simp
  have g': "glob_dot [(''a_b_c_d.png'', File ''PNG'' False True)]
      = [(''a_b_c_d.png'', File ''PNG'' False True)]" by code_simp
  show ?thesis
    by (simp add: process_dataset_def process_split_def process_image_def write_text_def copy2_def
        Let_def s x s' x' k t g g' del: transcode.simps)
qed

text \<open>
  C2 at an image whose stem matches the key \<open>b_c\<close> and whose label file holds one
  blank line: the rewritten label is empty, nothing is written, and the iteration
  leaves the statistics as they were, so that the walk over this only image ends
  with \<open>skipped\<close> at 0. Without the label file, the same image is counted as
  skipped.
\<close>

theorem process_image_empty_label_not_counted:
  "find_key [(''b_c'', 10)] (sorted_folder_keys [(''b_c'', 10)]) (path_stem ''a_b_c_d.png'') = Some 10
   \<and> transcode 10 [''\<newline>''] [] = []
   \<and> process_image [(''b_c'', 10)] (sorted_folder_keys [(''b_c'', 10)])
         \<lparr>src_images = (\<lambda>sp. case sp of Train \<Rightarrow> [(''a_b_c_d.png'', File ''PNG'' True True)]
                                       | Val \<Rightarrow> []),
          src_labels = (\<lambda>sp n. if sp = Train \<and> n = ''a_b_c_d.txt'' then Lines [''\<newline>''] else NoFile)\<rparr>
         Train (''a_b_c_d.png'', File ''PNG'' True True) (st, dest) = Inr (st, dest)
   \<and> process_dataset [(''b_c'', 10)]
         \<lparr>src_images = (\<lambda>sp. case sp of Train \<Rightarrow> [(''a_b_c_d.png'', File ''PNG'' True True)]
                                       | Val \<Rightarrow> []),
          src_labels = (\<lambda>sp n. if sp = Train \<and> n = ''a_b_c_d.txt'' then Lines [''\<newline>''] else NoFile)\<rparr>
         \<lparr>dest_dirs = {}, dest_images = Map.empty, dest_labels = Map.empty\<rparr>
       = Inr (\<lparr>train = 0, val = 0, skipped = 0\<rparr>,
              \<lparr>dest_dirs = {Train, Val}, dest_images = Map.empty, dest_labels = Map.empty\<rparr>)
   \<and> process_image [(''b_c'', 10)] (sorted_folder_keys [(''b_c'', 10)])
         \<lparr>src_images = (\<lambda>sp. case sp of Train \<Rightarrow> [(''a_b_c_d.png'', File ''PNG'' True True)]
                                       | Val \<Rightarrow> []),
          src_labels = (\<lambda>sp n. NoFile)\<rparr>
         Train (''a_b_c_d.png'', File ''PNG'' True True) (st, dest) = Inr (skip st, dest)"
proof -
  have s: "path_stem ''a_b_c_d.png'' = ''a_b_c_d''" by code_simp
  have k: "find_key [(''b_c'', 10)] (sorted_folder_keys [(''b_c'', 10)]) ''a_b_c_d'' = Some 10"
    by code_simp
  have t: "transcode 10 [''\<newline>''] [] = []" by code_simp
  have g: "glob_dot [(''a_b_c_d.png'', File ''PNG'' True True)]
      = [(''a_b_c_d.png'', File ''PNG'' True True)]" by code_simp
  have e: "glob_dot [] = ([] :: (string \<times> dir_entry) list)" by (simp add: glob_dot_def)
  have a: "process_image [(''b_c'', 10)] (sorted_folder_keys [(''b_c'', 10)])
         \<lparr>src_images = (\<lambda>sp. case sp of Train \<Rightarrow> [(''a_b_c_d.png'', File ''PNG'' True True)]
                                       | Val \<Rightarrow> []),
          src_labels = (\<lambda>sp n. if sp = Train \<and> n = ''a_b_c_d.txt'' then Lines [''\<newline>''] else NoFile)\<rparr>
         Train (''a_b_c_d.png'', File ''PNG'' True True) (st, dest) = Inr (st, dest)"
    unfolding process_image_def by (simp add: s k t del: transcode.simps)
  have r: "process_dataset [(''b_c'', 10)]
         \<lparr>src_images = (\<lambda>sp. case sp of Train \<Rightarrow> [(''a_b_c_d.png'', File ''PNG'' True True)]
                                       | Val \<Rightarrow> []),
          src_labels = (\<lambda>sp n. if sp = Train \<and> n = ''a_b_c_d.txt'' then Lines [''\<newline>''] else NoFile)\<rparr>
         \<lparr>dest_dirs = {}, dest_images = Map.empty, dest_labels = Map.empty\<rparr>
       = Inr (\<lparr>train = 0, val = 0, skipped = 0\<rparr>,
              \<lparr>dest_dirs = {Train, Val}, dest_images = Map.empty, dest_labels = Map.empty\<rparr>)"
    by (simp add: process_dataset_def process_split_def process_image_def Let_def s k t g e
        insert_commute del: transcode.simps)
  have b: "process_image [(''b_c'', 10)] (sorted_folder_keys [(''b_c'', 10)])
         \<lparr>src_images = (\<lambda>sp. case sp of Train \<Rightarrow> [(''a_b_c_d.png'', File ''PNG'' True True)]
                                       | Val \<Rightarrow> []),
          src_labels = (\<lambda>sp n. NoFile)\<rparr>
         Train (''a_b_c_d.png'', File ''PNG'' True True) (st, dest) = Inr (skip st, dest)"
    unfolding process_image_def by (simp add: s k)
  from s k t a r b show ?thesis by simp
qed

end
